theory Spec2Isabelle
  imports Complex_Main "HOL-Library.Word"
begin

unbundle bit_operations_syntax

section \<open>Values and providers\<close>

text \<open>
  A \<open>Uint8Array\<close> is a list of bytes. A JavaScript \<open>number\<close> that is used as a
  ratchet index is modelled by a rational: every finite double is one, comparison and the
  key equality of \<open>Map\<close> are exact on them, and the loop counter \<open>i\<close> of
  \<open>ratchetKey\<close> counts in whole steps. \<open>NaN\<close> and the infinities are left out.
  A JavaScript string is a \<open>string\<close>.
\<close>

type_synonym byte = "8 word"
type_synonym bytes = "byte list"

text \<open>
  What the code throws: \<open>new Error(message)\<close>, the \<open>TypeError\<close> of a property
  read on \<open>null\<close> or \<open>undefined\<close>, the \<open>SyntaxError\<close> of \<open>JSON.parse\<close>, and
  \<open>OperationError\<close> for whatever \<open>crypto.subtle\<close> rejects with (a key it cannot
  import, a tag that does not verify).
\<close>

datatype error =
    Error string
  | TypeError
  | SyntaxError
  | OperationError

text \<open>
  The values a \<open>metadata\<close> argument can hold at run time, and the values
  \<open>JSON.parse\<close> returns; functions, symbols and big integers are left out. The
  properties of an object are kept in insertion order, and a property is read at its
  first entry.
\<close>

datatype jsval =
    Undefined
  | Null
  | Bool bool
  | Number rat
  | String string
  | Array "jsval list"
  | Object "(string \<times> jsval) list"

datatype jstype = T_undefined | T_object | T_boolean | T_number | T_string

fun typeof :: "jsval \<Rightarrow> jstype" where
  "typeof Undefined = T_undefined"
| "typeof Null = T_object"
| "typeof (Bool b) = T_boolean"
| "typeof (Number n) = T_number"
| "typeof (String s) = T_string"
| "typeof (Array xs) = T_object"
| "typeof (Object kvs) = T_object"

text \<open>JavaScript's \<open>ToBoolean\<close>: what \<open>metadata &&\<close> and \<open>!x\<close> test.\<close>

fun truthy :: "jsval \<Rightarrow> bool" where
  "truthy Undefined = False"
| "truthy Null = False"
| "truthy (Bool b) = b"
| "truthy (Number n) = (n \<noteq> 0)"
| "truthy (String s) = (s \<noteq> [])"
| "truthy (Array xs) = True"
| "truthy (Object kvs) = True"

text \<open>
  The property read \<open>metadata.contentKeyBase64\<close>: a \<open>TypeError\<close> on \<open>null\<close>
  and \<open>undefined\<close>, the own property of an object, and \<open>undefined\<close> where there is
  none (also on arrays and on primitive values).
\<close>

fun get_contentKeyBase64 :: "jsval \<Rightarrow> error + jsval" where
  "get_contentKeyBase64 Undefined = Inl TypeError"
| "get_contentKeyBase64 Null = Inl TypeError"
| "get_contentKeyBase64 (Object kvs) =
     (case map_of kvs ''contentKeyBase64'' of None \<Rightarrow> Inr Undefined | Some v \<Rightarrow> Inr v)"
| "get_contentKeyBase64 v = Inr Undefined"

datatype ArgonType = Argon2d | Argon2i | Argon2id

text \<open>
  The libraries and platform services the code calls are parameters of the model:
  \<^item> \<open>argon2_hash pass salt type mem time parallelism hashLen\<close> is the \<open>hash\<close> field of
    what \<open>argon2.hash\<close> resolves to; \<open>pass\<close> is a string or a byte array;
  \<^item> \<open>digest_SHA256\<close> is \<open>crypto.subtle.digest("SHA-256", _)\<close>;
  \<^item> \<open>TextEncoder_encode\<close> and \<open>TextDecoder_decode\<close> are the UTF-8 codec;
  \<^item> \<open>JSON_stringify\<close> gives \<open>None\<close> where JavaScript gives \<open>undefined\<close>, and
    \<open>JSON_parse\<close> gives \<open>None\<close> where JavaScript throws a \<open>SyntaxError\<close>;
  \<^item> \<open>randomByte i\<close> is the byte the random source writes at position \<open>i\<close>;
  \<^item> \<open>aesGcmEncrypt key iv value\<close> is \<open>importKey\<close> followed by \<open>subtle.encrypt\<close>
    (ciphertext and tag), \<open>aesGcmDecrypt key iv value\<close> is \<open>importKey\<close> followed by
    \<open>subtle.decrypt\<close>; \<open>None\<close> where either throws;
  \<^item> \<open>toByteArray\<close> and \<open>fromByteArray\<close> are those of base64-js;
  \<^item> \<open>getPublicKeyAsync\<close> is that of the Ed25519 library.
\<close>

record platform =
  argon2_hash :: "string + bytes \<Rightarrow> bytes \<Rightarrow> ArgonType \<Rightarrow> nat \<Rightarrow> nat \<Rightarrow> nat \<Rightarrow> nat \<Rightarrow> bytes"
  digest_SHA256 :: "bytes \<Rightarrow> bytes"
  TextEncoder_encode :: "string \<Rightarrow> bytes"
  TextDecoder_decode :: "bytes \<Rightarrow> string"
  JSON_stringify :: "jsval \<Rightarrow> string option"
  JSON_parse :: "string \<Rightarrow> jsval option"
  randomByte :: "nat \<Rightarrow> byte"
  aesGcmEncrypt :: "bytes \<Rightarrow> bytes \<Rightarrow> bytes \<Rightarrow> bytes option"
  aesGcmDecrypt :: "bytes \<Rightarrow> bytes \<Rightarrow> bytes \<Rightarrow> bytes option"
  toByteArray :: "string \<Rightarrow> bytes option"
  fromByteArray :: "bytes \<Rightarrow> string"
  getPublicKeyAsync :: "bytes \<Rightarrow> bytes"

section \<open>Kdf\<close>

definition Kdf_hashSalt :: "platform \<Rightarrow> string \<Rightarrow> bytes" where
  "Kdf_hashSalt p s = digest_SHA256 p (TextEncoder_encode p s)"

text \<open>
  \<open>Kdf.hash(keyphrase, salt?, hashedSalt?)\<close>: an optional argument is an \<open>option\<close>,
  \<open>None\<close> for \<open>undefined\<close>.
\<close>

definition Kdf_hash :: "platform \<Rightarrow> string \<Rightarrow> string option \<Rightarrow> bytes option \<Rightarrow> error + bytes" where
  "Kdf_hash p keyphrase saltArg hashedSalt =
     (case (hashedSalt, saltArg) of
        (None, None) \<Rightarrow> Inl (Error ''Either salt or hashedSalt must be provided.'')
      | (Some saltHash, _) \<Rightarrow>
          Inr (argon2_hash p (Inl keyphrase) saltHash Argon2id 19456 2 1 32)
      | (None, Some s) \<Rightarrow>
          Inr (argon2_hash p (Inl keyphrase) (Kdf_hashSalt p s) Argon2id 19456 2 1 32))"

definition Kdf_fastHash :: "platform \<Rightarrow> bytes \<Rightarrow> string option \<Rightarrow> bytes option \<Rightarrow> error + bytes" where
  "Kdf_fastHash p k saltArg hashedSalt =
     (case (hashedSalt, saltArg) of
        (None, None) \<Rightarrow> Inl (Error ''Either salt or saltHash must be provided.'')
      | (Some saltHash, _) \<Rightarrow>
          Inr (argon2_hash p (Inr k) saltHash Argon2id 10 1 1 32)
      | (None, Some s) \<Rightarrow>
          Inr (argon2_hash p (Inr k) (Kdf_hashSalt p s) Argon2id 10 1 1 32))"

section \<open>The ratchet and its cache\<close>

text \<open>
  The static field \<open>ratchetCache\<close> is the state of the model. Beside it the state keeps
  the list of calls made to the \<open>Kdf\<close>, oldest first, as the spies of the repository's
  tests do; no function of the model reads that list.
\<close>

record ratchet_cache =
  key :: string
  salt :: string
  hashes :: "rat \<Rightarrow> bytes option"

datatype kdf_call =
    HashSaltCall string
  | HashCall string bytes
  | FastHashCall bytes bytes

record world =
  ratchetCache :: "ratchet_cache option"
  kdfCalls :: "kdf_call list"

definition initial :: world where
  "initial = \<lparr>ratchetCache = None, kdfCalls = []\<rparr>"

definition clearRatchetCache :: "world \<Rightarrow> world" where
  "clearRatchetCache st = st\<lparr>ratchetCache := None\<rparr>"

definition called :: "kdf_call \<Rightarrow> world \<Rightarrow> world" where
  "called c st = st\<lparr>kdfCalls := kdfCalls st @ [c]\<rparr>"

definition initalizeRatchetCache :: "string \<Rightarrow> string \<Rightarrow> world \<Rightarrow> world" where
  "initalizeRatchetCache k s st =
     (if map_option key (ratchetCache st) \<noteq> Some k \<or> map_option salt (ratchetCache st) \<noteq> Some s
      then st\<lparr>ratchetCache := Some \<lparr>key = k, salt = s, hashes = Map.empty\<rparr>\<rparr>
      else st)"

text \<open>\<open>SymmetricEncryption.ratchetCache?.hashes.get(i)\<close>\<close>

definition cache_get :: "world \<Rightarrow> rat \<Rightarrow> bytes option" where
  "cache_get st i = (case ratchetCache st of None \<Rightarrow> None | Some c \<Rightarrow> hashes c i)"

text \<open>\<open>SymmetricEncryption.ratchetCache!.hashes.set(i, v)\<close>\<close>

definition cache_set :: "world \<Rightarrow> rat \<Rightarrow> bytes \<Rightarrow> error + world" where
  "cache_set st i v =
     (case ratchetCache st of
        None \<Rightarrow> Inl TypeError
      | Some c \<Rightarrow> Inr (st\<lparr>ratchetCache := Some (c\<lparr>hashes := (hashes c)(i \<mapsto> v)\<rparr>)\<rparr>))"

text \<open>
  The \<open>for\<close> loop of \<open>ratchetKey\<close>, from the counter \<open>i\<close> on, with the current
  \<open>ratchetedKey\<close>.
\<close>

function ratchetLoop ::
  "platform \<Rightarrow> bytes \<Rightarrow> rat \<Rightarrow> nat \<Rightarrow> bytes \<Rightarrow> world \<Rightarrow> (error + bytes) \<times> world" where
  "ratchetLoop p saltHash ratchetCount i ratchetedKey st =
     (if of_nat i \<le> ratchetCount then
        (case (case cache_get st (of_nat i) of
                 Some v \<Rightarrow> (Inr v, st)
               | None \<Rightarrow> (Kdf_fastHash p ratchetedKey None (Some saltHash),
                           called (FastHashCall ratchetedKey saltHash) st)) of
           (Inl e, st1) \<Rightarrow> (Inl e, st1)
         | (Inr v, st1) \<Rightarrow>
             (case cache_set st1 (of_nat i) v of
                Inl e \<Rightarrow> (Inl e, st1)
              | Inr st2 \<Rightarrow> ratchetLoop p saltHash ratchetCount (i + 1) v st2))
      else (Inr ratchetedKey, st))"
  by pat_completeness auto
termination
proof (relation "measure (\<lambda>(p, saltHash, ratchetCount, i, ratchetedKey, st). nat \<lfloor>ratchetCount\<rfloor> + 1 - i)")
  show "wf (measure (\<lambda>(p, saltHash, ratchetCount, i, ratchetedKey, st). nat \<lfloor>ratchetCount :: rat\<rfloor> + 1 - i))"
    by simp
next
  fix p :: platform and saltHash :: bytes and ratchetCount :: rat and i :: nat
    and ratchetedKey :: bytes and st :: world and x y x2 x2a
  assume le: "of_nat i \<le> ratchetCount"
  have "int i \<le> \<lfloor>ratchetCount\<rfloor>"
    using le by (simp add: le_floor_iff)
  then have "i \<le> nat \<lfloor>ratchetCount\<rfloor>"
    by linarith
  then show "((p, saltHash, ratchetCount, i + 1, x2, x2a), (p, saltHash, ratchetCount, i, ratchetedKey, st))
      \<in> measure (\<lambda>(p, saltHash, ratchetCount, i, ratchetedKey, st). nat \<lfloor>ratchetCount\<rfloor> + 1 - i)"
    by simp
qed

declare ratchetLoop.simps [simp del]

definition ratchetKey ::
  "platform \<Rightarrow> string \<Rightarrow> string \<Rightarrow> rat \<Rightarrow> world \<Rightarrow> (error + bytes) \<times> world" where
  "ratchetKey p k s ratchetCount st0 =
     (if ratchetCount \<le> 0 then (Inl (Error ''Ratchet count must be larger than 0''), st0)
      else
        let st = initalizeRatchetCache k s st0 in
        (case cache_get st ratchetCount of
           Some v \<Rightarrow> (Inr v, st)
         | None \<Rightarrow>
             let saltHash = Kdf_hashSalt p s;
                 st1 = called (HashSaltCall s) st
             in
             (case (case cache_get st1 1 of
                      Some v \<Rightarrow> (Inr v, st1)
                    | None \<Rightarrow> (Kdf_hash p k None (Some saltHash),
                                called (HashCall k saltHash) st1)) of
                (Inl e, st2) \<Rightarrow> (Inl e, st2)
              | (Inr v, st2) \<Rightarrow>
                  (case cache_set st2 1 v of
                     Inl e \<Rightarrow> (Inl e, st2)
                   | Inr st3 \<Rightarrow> ratchetLoop p saltHash ratchetCount 2 v st3))))"

section \<open>SymmetricEncryption\<close>

text \<open>
  \<open>getRandomValues(new Uint8Array(n))\<close> fills a fresh array of \<open>n\<close> bytes.
\<close>

definition getRandomValues :: "platform \<Rightarrow> nat \<Rightarrow> bytes" where
  "getRandomValues p n = map (randomByte p) [0..<n]"

definition encrypt :: "platform \<Rightarrow> bytes \<Rightarrow> bytes \<Rightarrow> error + bytes" where
  "encrypt p k v =
     (let iv = getRandomValues p 16 in
      case aesGcmEncrypt p k iv v of
        None \<Rightarrow> Inl OperationError
      | Some encryptedValue \<Rightarrow> Inr (iv @ encryptedValue))"

definition decrypt :: "platform \<Rightarrow> bytes \<Rightarrow> bytes \<Rightarrow> error + bytes" where
  "decrypt p k v =
     (let iv = take 16 v;
          encryptedValue = drop 16 v
      in case aesGcmDecrypt p k iv encryptedValue of
           None \<Rightarrow> Inl OperationError
         | Some decryptedValue \<Rightarrow> Inr decryptedValue)"

text \<open>
  \<open>TextEncoder.encode\<close> takes \<open>undefined\<close>, which \<open>JSON.stringify\<close> can return, as
  the empty string.
\<close>

definition encryptMetadata ::
  "platform \<Rightarrow> string \<Rightarrow> string \<Rightarrow> rat \<Rightarrow> jsval \<Rightarrow> world \<Rightarrow> (error + bytes) \<times> world" where
  "encryptMetadata p keyphrase s fileNumber metadata st =
     (case ratchetKey p keyphrase s fileNumber st of
        (Inl e, st1) \<Rightarrow> (Inl e, st1)
      | (Inr ratchetedKey, st1) \<Rightarrow>
          if truthy metadata \<and> typeof metadata \<noteq> T_object
          then (Inl (Error ''Metadata must be an object''), st1)
          else
            let metadataString = JSON_stringify p metadata;
                metadataBuffer =
                  TextEncoder_encode p (case metadataString of None \<Rightarrow> [] | Some str \<Rightarrow> str)
            in (encrypt p ratchetedKey metadataBuffer, st1))"

definition decryptMetadata ::
  "platform \<Rightarrow> string \<Rightarrow> string \<Rightarrow> rat \<Rightarrow> bytes \<Rightarrow> world \<Rightarrow> (error + jsval) \<times> world" where
  "decryptMetadata p keyphrase s fileNumber encryptedMetadata st =
     (case ratchetKey p keyphrase s fileNumber st of
        (Inl e, st1) \<Rightarrow> (Inl e, st1)
      | (Inr ratchetedKey, st1) \<Rightarrow>
          (case decrypt p ratchetedKey encryptedMetadata of
             Inl e \<Rightarrow> (Inl e, st1)
           | Inr decryptedMetadata \<Rightarrow>
               let metadataString = TextDecoder_decode p decryptedMetadata in
               (case JSON_parse p metadataString of
                  None \<Rightarrow> (Inl SyntaxError, st1)
                | Some metadata \<Rightarrow>
                    if truthy metadata \<and> typeof metadata \<noteq> T_object
                    then (Inl (Error ''Metadata must be an object''), st1)
                    else
                      (case get_contentKeyBase64 metadata of
                         Inl e \<Rightarrow> (Inl e, st1)
                       | Inr contentKeyBase64 \<Rightarrow>
                           if \<not> truthy contentKeyBase64
                           then (Inl (Error ''content key not found in metadata''), st1)
                           else (Inr metadata, st1)))))"

definition createContentKey :: "platform \<Rightarrow> bytes" where
  "createContentKey p = getRandomValues p 32"

definition createContentKeyBase64 :: "platform \<Rightarrow> string" where
  "createContentKeyBase64 p = fromByteArray p (createContentKey p)"




section \<open>Signature\<close>

record keypair =
  publicKey :: bytes
  privateKey :: bytes

definition createKeyPairFromKeyPhrase :: "platform \<Rightarrow> string \<Rightarrow> string \<Rightarrow> error + keypair" where
  "createKeyPairFromKeyPhrase p keyphrase s =
     (case Kdf_hash p keyphrase (Some s) None of
        Inl e \<Rightarrow> Inl e
      | Inr priv \<Rightarrow> Inr \<lparr>publicKey = getPublicKeyAsync p priv, privateKey = priv\<rparr>)"

section \<open>The chain of the specification and the invariant of the cache\<close>

text \<open>
  The chain as the specification words it: \<open>k\<^sub>1\<close> is the strong hash of the keyphrase
  under the hashed salt, \<open>k\<^sub>j\<close> is the fast hash of \<open>k\<^bsub>j-1\<^esub>\<close> under the same
  hashed salt, and an index below 1 is refused. The hashes are the \<open>Kdf\<close>'s own.
\<close>

fun spec_ratchet_chain :: "platform \<Rightarrow> string \<Rightarrow> string \<Rightarrow> nat \<Rightarrow> error + bytes" where
  "spec_ratchet_chain p K S 0 = Inl (Error ''Ratchet count must be larger than 0'')"
| "spec_ratchet_chain p K S (Suc 0) = Kdf_hash p K None (Some (Kdf_hashSalt p S))"
| "spec_ratchet_chain p K S (Suc (Suc n)) =
     (case spec_ratchet_chain p K S (Suc n) of
        Inl e \<Rightarrow> Inl e
      | Inr k \<Rightarrow> Kdf_fastHash p k None (Some (Kdf_hashSalt p S)))"

text \<open>The key of the chain at an index, for an index from 1 on.\<close>

definition chain_key :: "platform \<Rightarrow> string \<Rightarrow> string \<Rightarrow> nat \<Rightarrow> bytes" where
  "chain_key p K S n = (case spec_ratchet_chain p K S n of Inl e \<Rightarrow> [] | Inr k \<Rightarrow> k)"

text \<open>
  The map that holds exactly the first \<open>M\<close> keys of the chain of \<open>(K, S)\<close>, under the
  whole numbers 1 to \<open>M\<close>.
\<close>

definition prefix_cache :: "platform \<Rightarrow> string \<Rightarrow> string \<Rightarrow> nat \<Rightarrow> rat \<Rightarrow> bytes option" where
  "prefix_cache p K S M q =
     (if of_int \<lfloor>q\<rfloor> = q \<and> 1 \<le> q \<and> q \<le> of_nat M
      then Some (chain_key p K S (nat \<lfloor>q\<rfloor>)) else None)"

definition cache_ok :: "platform \<Rightarrow> world \<Rightarrow> bool" where
  "cache_ok p st =
     (case ratchetCache st of
        None \<Rightarrow> True
      | Some c \<Rightarrow> (\<exists>M. hashes c = prefix_cache p (key c) (salt c) M))"

text \<open>
  The states the program can be in: the one it starts in, and those that a call of
  \<open>ratchetKey\<close> (with any arguments) or of \<open>clearRatchetCache\<close> leaves behind. Calls
  run one after the other.
\<close>

inductive reachable :: "platform \<Rightarrow> world \<Rightarrow> bool" for p :: platform where
  start: "reachable p initial"
| ratchet: "reachable p st \<Longrightarrow> reachable p (snd (ratchetKey p K S rc st))"
| clear: "reachable p st \<Longrightarrow> reachable p (clearRatchetCache st)"

text \<open>The calls of the strong hash among the calls made so far.\<close>

fun isHashCall :: "kdf_call \<Rightarrow> bool" where
  "isHashCall (HashCall k h) = True"
| "isHashCall c = False"

definition strongHashCalls :: "world \<Rightarrow> nat" where
  "strongHashCalls st = length (filter isHashCall (kdfCalls st))"

section \<open>The providers of the repository's tests\<close>

text \<open>
  A concrete platform for evaluating the model. The key derivation answers with the
  constants of the tests' \<open>FakeKdf\<close>, the random source writes the tests' fixed IV, the
  text codec is the one-byte part of UTF-8. The cipher, the JSON codec and the base64
  decoder are small stand-ins: the cipher adds a byte derived from key and IV to each
  byte and appends a 16-byte tag, as AES-GCM appends its own; the JSON codec and the base64
  decoder know the documents and the key used below, where they agree with JavaScript.
\<close>

definition KEYPHRASE :: string where
  "KEYPHRASE = ''test123''"

definition SALT :: string where
  "SALT = ''my-clipboard''"

definition PRECOMPUTED_DERIVED_KEY_FIRST_PASS :: bytes where
  "PRECOMPUTED_DERIVED_KEY_FIRST_PASS =
     [31, 30, 29, 28, 27, 26, 25, 24, 23, 22, 21, 20, 19, 18, 17, 16,
      15, 14, 13, 12, 11, 10, 9, 8, 7, 6, 5, 4, 3, 2, 1, 0]"

definition PRECOMPUTED_DERIVED_KEY_NEXT_PASS :: bytes where
  "PRECOMPUTED_DERIVED_KEY_NEXT_PASS =
     [0, 1, 2, 3, 4, 5, 6, 7, 8, 9, 10, 11, 12, 13, 14, 15,
      16, 17, 18, 19, 20, 21, 22, 23, 24, 25, 26, 27, 28, 29, 30, 31]"

definition PRECOMPUTED_HASHED_SALT :: bytes where
  "PRECOMPUTED_HASHED_SALT =
     [28, 29, 30, 31, 0, 1, 2, 3, 4, 5, 6, 7, 8, 9, 10, 11,
      12, 13, 14, 15, 16, 17, 18, 19, 20, 21, 22, 23, 24, 25, 26, 27]"

definition CONTENT_KEY_BASE64 :: string where
  "CONTENT_KEY_BASE64 = ''MzItYnl0ZS1jb250ZW50LWtleS1iYXNlNjQtZW5jb2Q=''"

definition CONTENT_KEY :: bytes where
  "CONTENT_KEY =
     [51, 50, 45, 98, 121, 116, 101, 45, 99, 111, 110, 116, 101, 110, 116, 45,
      107, 101, 121, 45, 98, 97, 115, 101, 54, 52, 45, 101, 110, 99, 111, 100]"

definition PLAINTEXT_METADATA :: jsval where
  "PLAINTEXT_METADATA =
     Object [(''contentKeyBase64'', String CONTENT_KEY_BASE64), (''fileName'', String ''test.txt'')]"


definition PLAINTEXT_METADATA_JSON :: string where
  \<open>PLAINTEXT_METADATA_JSON =
     ''{"contentKeyBase64":"MzItYnl0ZS1jb250ZW50LWtleS1iYXNlNjQtZW5jb2Q=","fileName":"test.txt"}''\<close>

definition SHORT_KEY_METADATA :: jsval where
  "SHORT_KEY_METADATA = Object [(''contentKeyBase64'', String ''abc'')]"

definition SHORT_KEY_METADATA_JSON :: string where
  \<open>SHORT_KEY_METADATA_JSON = ''{"contentKeyBase64":"abc"}''\<close>

definition EMPTY_KEY_METADATA :: jsval where
  "EMPTY_KEY_METADATA = Object [(''contentKeyBase64'', String [])]"

definition EMPTY_KEY_METADATA_JSON :: string where
  \<open>EMPTY_KEY_METADATA_JSON = ''{"contentKeyBase64":""}''\<close>

definition NO_KEY_METADATA :: jsval where
  "NO_KEY_METADATA = Object [(''fileName'', String ''test.txt'')]"

definition NO_KEY_METADATA_JSON :: string where
  \<open>NO_KEY_METADATA_JSON = ''{"fileName":"test.txt"}''\<close>

definition test_stringify :: "jsval \<Rightarrow> string option" where
  "test_stringify v =
     (if v = PLAINTEXT_METADATA then Some PLAINTEXT_METADATA_JSON
      else if v = SHORT_KEY_METADATA then Some SHORT_KEY_METADATA_JSON
      else if v = EMPTY_KEY_METADATA then Some EMPTY_KEY_METADATA_JSON
      else if v = NO_KEY_METADATA then Some NO_KEY_METADATA_JSON
      else if v = Number 0 then Some ''0''
      else None)"

definition test_parse :: "string \<Rightarrow> jsval option" where
  "test_parse str =
     (if str = PLAINTEXT_METADATA_JSON then Some PLAINTEXT_METADATA
      else if str = SHORT_KEY_METADATA_JSON then Some SHORT_KEY_METADATA
      else if str = EMPTY_KEY_METADATA_JSON then Some EMPTY_KEY_METADATA
      else if str = NO_KEY_METADATA_JSON then Some NO_KEY_METADATA
      else if str = ''0'' then Some (Number 0)
      else None)"

definition test_toByteArray :: "string \<Rightarrow> bytes option" where
  "test_toByteArray b64 = (if b64 = CONTENT_KEY_BASE64 then Some CONTENT_KEY else None)"

definition test_fromByteArray :: "bytes \<Rightarrow> string" where
  "test_fromByteArray b = (if b = CONTENT_KEY then CONTENT_KEY_BASE64 else [])"

definition test_encode :: "string \<Rightarrow> bytes" where
  "test_encode str = map (\<lambda>c. of_nat (of_char c)) str"

definition test_decode :: "bytes \<Rightarrow> string" where
  "test_decode b = map (\<lambda>x. char_of (unat x)) b"

definition test_mask :: "bytes \<Rightarrow> bytes \<Rightarrow> byte" where
  "test_mask k iv = foldr (+) (k @ iv) 0"

definition test_seal :: "bytes \<Rightarrow> bytes \<Rightarrow> bytes \<Rightarrow> bytes option" where
  "test_seal k iv v =
     (if length k = 32 then Some (map (\<lambda>b. b + test_mask k iv) v @ replicate 16 (test_mask k iv))
      else None)"

definition test_open :: "bytes \<Rightarrow> bytes \<Rightarrow> bytes \<Rightarrow> bytes option" where
  "test_open k iv c =
     (if length k = 32 \<and> 16 \<le> length c \<and> drop (length c - 16) c = replicate 16 (test_mask k iv)
      then Some (map (\<lambda>b. b - test_mask k iv) (take (length c - 16) c))
      else None)"

definition testPlatform :: platform where
  "testPlatform =
     \<lparr>argon2_hash = (\<lambda>pass saltHash t m i par n.
        case pass of
          Inl keyphrase \<Rightarrow> PRECOMPUTED_DERIVED_KEY_FIRST_PASS
        | Inr k \<Rightarrow> PRECOMPUTED_DERIVED_KEY_NEXT_PASS),
      digest_SHA256 = (\<lambda>b. PRECOMPUTED_HASHED_SALT),
      TextEncoder_encode = test_encode,
      TextDecoder_decode = test_decode,
      JSON_stringify = test_stringify,
      JSON_parse = test_parse,
      randomByte = (\<lambda>i. if i < 16 then of_nat i else 0),
      aesGcmEncrypt = test_seal,
      aesGcmDecrypt = test_open,
      toByteArray = test_toByteArray,
      fromByteArray = test_fromByteArray,
      getPublicKeyAsync = rev\<rparr>"

text \<open>
  Blobs of that platform: the fixed IV, the document sealed under the first key of the
  chain of \<open>(KEYPHRASE, SALT)\<close>, and the tag.
\<close>

definition SHORT_KEY_BLOB :: bytes where
  "SHORT_KEY_BLOB =
     [0, 1, 2, 3, 4, 5, 6, 7, 8, 9, 10, 11, 12, 13, 14, 15, 227, 138, 203, 215, 214, 220,
      205, 214, 220, 179, 205, 225, 170, 201, 219, 205, 158, 156, 138, 162, 138, 201, 202,
      203, 138, 229, 104, 104, 104, 104, 104, 104, 104, 104, 104, 104, 104, 104, 104, 104,
      104, 104]"

definition EMPTY_KEY_BLOB :: bytes where
  "EMPTY_KEY_BLOB =
     [0, 1, 2, 3, 4, 5, 6, 7, 8, 9, 10, 11, 12, 13, 14, 15, 227, 138, 203, 215, 214, 220,
      205, 214, 220, 179, 205, 225, 170, 201, 219, 205, 158, 156, 138, 162, 138, 138, 229,
      104, 104, 104, 104, 104, 104, 104, 104, 104, 104, 104, 104, 104, 104, 104, 104]"

definition NO_KEY_BLOB :: bytes where
  "NO_KEY_BLOB =
     [0, 1, 2, 3, 4, 5, 6, 7, 8, 9, 10, 11, 12, 13, 14, 15, 227, 138, 206, 209, 212, 205,
      182, 201, 213, 205, 138, 162, 138, 220, 205, 219, 220, 150, 220, 224, 220, 138, 229,
      104, 104, 104, 104, 104, 104, 104, 104, 104, 104, 104, 104, 104, 104, 104, 104]"

definition ZERO_BLOB :: bytes where
  "ZERO_BLOB =
     [0, 1, 2, 3, 4, 5, 6, 7, 8, 9, 10, 11, 12, 13, 14, 15, 152, 104, 104, 104, 104, 104,
      104, 104, 104, 104, 104, 104, 104, 104, 104, 104, 104]"

text \<open>
  A state whose cache belongs to another keyphrase and holds a key under index 1.
\<close>

definition OTHER_SESSION :: world where
  "OTHER_SESSION =
     \<lparr>ratchetCache = Some \<lparr>key = ''another phrase'', salt = SALT,
                            hashes = [1 \<mapsto> PRECOMPUTED_DERIVED_KEY_NEXT_PASS]\<rparr>,
      kdfCalls = []\<rparr>"

section \<open>The ratchet returns the chain\<close>

lemma Kdf_hash_hashed: "Kdf_hash p K None (Some h) = Inr (argon2_hash p (Inl K) h Argon2id 19456 2 1 32)"
  by (simp add: Kdf_hash_def)

lemma Kdf_fastHash_hashed: "Kdf_fastHash p k None (Some h) = Inr (argon2_hash p (Inr k) h Argon2id 10 1 1 32)"
  by (simp add: Kdf_fastHash_def)

lemma spec_chain_total: "0 < n \<Longrightarrow> \<exists>k. spec_ratchet_chain p K S n = Inr k"
proof (induction n rule: spec_ratchet_chain.induct[of _ p K S])
  case (1 p K S)
  then show ?case by simp
next
  case (2 p K S)
  show ?case by (simp add: Kdf_hash_hashed)
next
  case (3 p K S n)
  then obtain k where "spec_ratchet_chain p K S (Suc n) = Inr k" by auto
  then show ?case by (simp add: Kdf_fastHash_hashed)
qed

lemma spec_chain_Inr: "0 < n \<Longrightarrow> spec_ratchet_chain p K S n = Inr (chain_key p K S n)"
proof -
  assume "0 < n"
  then obtain k where "spec_ratchet_chain p K S n = Inr k"
    using spec_chain_total by blast
  then show ?thesis by (simp add: chain_key_def)
qed

lemma strong_chain_key: "Kdf_hash p K None (Some (Kdf_hashSalt p S)) = Inr (chain_key p K S (Suc 0))"
  by (simp add: chain_key_def Kdf_hash_hashed)

lemma fast_chain_key:
  "0 < n \<Longrightarrow> Kdf_fastHash p (chain_key p K S n) None (Some (Kdf_hashSalt p S)) = Inr (chain_key p K S (Suc n))"
proof -
  assume "0 < n"
  then obtain m where n: "n = Suc m" by (cases n) auto
  have "spec_ratchet_chain p K S (Suc (Suc m)) = Inr (chain_key p K S (Suc (Suc m)))"
    by (rule spec_chain_Inr) simp
  moreover have "spec_ratchet_chain p K S (Suc m) = Inr (chain_key p K S (Suc m))"
    by (rule spec_chain_Inr) simp
  ultimately show ?thesis by (simp add: n)
qed

lemma prefix_cache_of_nat:
  "prefix_cache p K S M (of_nat n) = (if 1 \<le> n \<and> n \<le> M then Some (chain_key p K S n) else None)"
  by (simp add: prefix_cache_def)

lemma prefix_cache_0: "prefix_cache p K S 0 = Map.empty"
  by (rule ext) (simp add: prefix_cache_def)

lemma prefix_cache_idem:
  "1 \<le> n \<Longrightarrow> n \<le> M \<Longrightarrow> (prefix_cache p K S M)(of_nat n \<mapsto> chain_key p K S n) = prefix_cache p K S M"
  by (rule ext) (simp add: prefix_cache_of_nat)

lemma prefix_cache_extend:
  "(prefix_cache p K S M)(of_nat (Suc M) \<mapsto> chain_key p K S (Suc M)) = prefix_cache p K S (Suc M)"
proof (rule ext)
  fix q :: rat
  show "((prefix_cache p K S M)(of_nat (Suc M) \<mapsto> chain_key p K S (Suc M))) q = prefix_cache p K S (Suc M) q"
  proof (cases "q = of_nat (Suc M)")
    case True
    then show ?thesis by (simp add: prefix_cache_of_nat del: of_nat_Suc)
  next
    case False
    show ?thesis
    proof (cases "of_int \<lfloor>q\<rfloor> = q \<and> 1 \<le> q")
      case True
      then have "0 \<le> \<lfloor>q\<rfloor>" by linarith
      then have "q = of_nat (nat \<lfloor>q\<rfloor>)"
        using True by (metis of_int_of_nat_eq nat_0_le)
      then obtain m :: nat where q: "q = of_nat m" ..
      with \<open>q \<noteq> of_nat (Suc M)\<close> have "m \<noteq> Suc M" by auto
      then show ?thesis
        unfolding q by (simp add: prefix_cache_of_nat del: of_nat_Suc)
    next
      case False
      then show ?thesis using \<open>q \<noteq> of_nat (Suc M)\<close> by (auto simp add: prefix_cache_def)
    qed
  qed
qed

lemma of_nat_le_floor: "0 < i \<Longrightarrow> (of_nat i \<le> (rc::rat)) = (i \<le> nat \<lfloor>rc\<rfloor>)"
proof -
  assume "0 < i"
  have "(of_nat i \<le> rc) = (int i \<le> \<lfloor>rc\<rfloor>)"
    using le_floor_iff[of "int i" rc] by simp
  also have "\<dots> = (i \<le> nat \<lfloor>rc\<rfloor>)"
    using \<open>0 < i\<close> by linarith
  finally show ?thesis .
qed

lemma ratchetLoop_stop:
  "\<not> of_nat i \<le> rc \<Longrightarrow> ratchetLoop p hs rc i k st = (Inr k, st)"
  by (subst ratchetLoop.simps) simp

lemma ratchetLoop_hit:
  "of_nat i \<le> rc \<Longrightarrow> cache_get st (of_nat i) = Some v \<Longrightarrow> cache_set st (of_nat i) v = Inr st2 \<Longrightarrow>
     ratchetLoop p hs rc i k st = ratchetLoop p hs rc (Suc i) v st2"
  by (subst ratchetLoop.simps) simp

lemma ratchetLoop_miss:
  "of_nat i \<le> rc \<Longrightarrow> cache_get st (of_nat i) = None \<Longrightarrow> Kdf_fastHash p k None (Some hs) = Inr v \<Longrightarrow>
     cache_set (called (FastHashCall k hs) st) (of_nat i) v = Inr st2 \<Longrightarrow>
     ratchetLoop p hs rc i k st = ratchetLoop p hs rc (Suc i) v st2"
  by (subst ratchetLoop.simps) simp

lemma ratchetLoop_prefix:
  assumes "1 \<le> j" and "j \<le> M"
  shows "ratchetLoop p (Kdf_hashSalt p S) rc (Suc j) (chain_key p K S j)
           \<lparr>ratchetCache = Some \<lparr>key = K, salt = S, hashes = prefix_cache p K S M\<rparr>, kdfCalls = cs\<rparr>
         = (Inr (chain_key p K S (max j (nat \<lfloor>rc\<rfloor>))),
            \<lparr>ratchetCache = Some \<lparr>key = K, salt = S, hashes = prefix_cache p K S (max M (nat \<lfloor>rc\<rfloor>))\<rparr>,
             kdfCalls = cs @ map (\<lambda>n. FastHashCall (chain_key p K S n) (Kdf_hashSalt p S))
                               [M ..< nat \<lfloor>rc\<rfloor>]\<rparr>)"
  using assms
proof (induction "nat \<lfloor>rc\<rfloor> - j" arbitrary: j M cs)
  case 0
  then have F: "nat \<lfloor>rc\<rfloor> \<le> j" by simp
  then have gt: "\<not> of_nat (Suc j) \<le> rc"
    by (simp add: of_nat_le_floor del: of_nat_Suc)
  have m1: "max j (nat \<lfloor>rc\<rfloor>) = j" using F by simp
  have m2: "max M (nat \<lfloor>rc\<rfloor>) = M" using F "0.prems" by simp
  have m3: "[M ..< nat \<lfloor>rc\<rfloor>] = []" using F "0.prems" by simp
  show ?case
    unfolding m1 m2 m3 using ratchetLoop_stop[OF gt] by simp
next
  case (Suc d)
  let ?hs = "Kdf_hashSalt p S"
  let ?f = "\<lambda>n. FastHashCall (chain_key p K S n) ?hs"
  let ?F = "nat \<lfloor>rc\<rfloor>"
  let ?st = "\<lambda>M cs. \<lparr>ratchetCache = Some \<lparr>key = K, salt = S, hashes = prefix_cache p K S M\<rparr>, kdfCalls = cs\<rparr>"
  from Suc have F: "Suc j \<le> ?F" by simp
  then have le: "of_nat (Suc j) \<le> rc"
    by (simp add: of_nat_le_floor del: of_nat_Suc)
  have d: "d = ?F - Suc j" using Suc.hyps(2) by simp
  have m1: "max (Suc j) ?F = max j ?F" using F by simp
  show ?case
  proof (cases "Suc j \<le> M")
    case True
    have g: "cache_get (?st M cs) (of_nat (Suc j)) = Some (chain_key p K S (Suc j))"
      using True by (simp add: cache_get_def prefix_cache_of_nat del: of_nat_Suc)
    have s: "cache_set (?st M cs) (of_nat (Suc j)) (chain_key p K S (Suc j)) = Inr (?st M cs)"
      using True prefix_cache_idem[of "Suc j" M p K S] by (simp add: cache_set_def del: of_nat_Suc)
    have "ratchetLoop p ?hs rc (Suc j) (chain_key p K S j) (?st M cs)
            = ratchetLoop p ?hs rc (Suc (Suc j)) (chain_key p K S (Suc j)) (?st M cs)"
      by (rule ratchetLoop_hit[OF le g s])
    also have "\<dots> = (Inr (chain_key p K S (max (Suc j) ?F)), ?st (max M ?F) (cs @ map ?f [M ..< ?F]))"
      using Suc.hyps(1)[OF d _ True, of cs] by simp
    finally show ?thesis unfolding m1 .
  next
    case False
    then have jM: "j = M" using Suc.prems by simp
    have g: "cache_get (?st M cs) (of_nat (Suc j)) = None"
      using jM by (simp add: cache_get_def prefix_cache_of_nat del: of_nat_Suc)
    have f: "Kdf_fastHash p (chain_key p K S j) None (Some ?hs) = Inr (chain_key p K S (Suc j))"
      using fast_chain_key[of j p K S] Suc.prems by simp
    have s: "cache_set (called (?f j) (?st M cs)) (of_nat (Suc j)) (chain_key p K S (Suc j))
               = Inr (?st (Suc j) (cs @ [?f j]))"
      using prefix_cache_extend[of p K S M] jM by (simp add: cache_set_def called_def del: of_nat_Suc)
    have m2: "max (Suc j) ?F = max M ?F" using F jM by simp
    have m3: "[M ..< ?F] = j # [Suc j ..< ?F]"
      using F jM by (simp add: upt_conv_Cons)
    have "ratchetLoop p ?hs rc (Suc j) (chain_key p K S j) (?st M cs)
            = ratchetLoop p ?hs rc (Suc (Suc j)) (chain_key p K S (Suc j)) (?st (Suc j) (cs @ [?f j]))"
      by (rule ratchetLoop_miss[OF le g f s])
    also have "\<dots> = (Inr (chain_key p K S (max (Suc j) ?F)),
                     ?st (max (Suc j) ?F) ((cs @ [?f j]) @ map ?f [Suc j ..< ?F]))"
      using Suc.hyps(1)[OF d, of "Suc j" "cs @ [?f j]"] by simp
    also have "\<dots> = (Inr (chain_key p K S (max j ?F)), ?st (max M ?F) (cs @ map ?f [M ..< ?F]))"
      unfolding m3 m1[symmetric] m2[symmetric] by simp
    finally show ?thesis .
  qed
qed

lemma prefix_cache_1:
  "prefix_cache p K S M 1 = (if 1 \<le> M then Some (chain_key p K S 1) else None)"
  using prefix_cache_of_nat[of p K S M 1] by simp

lemma prefix_cache_set_1:
  "(prefix_cache p K S M)(1 \<mapsto> chain_key p K S 1) = prefix_cache p K S (max 1 M)"
proof (cases "1 \<le> M")
  case True
  then show ?thesis using prefix_cache_idem[of 1 M p K S] by (simp add: max_def)
next
  case False
  then have "M = 0" by simp
  then show ?thesis using prefix_cache_extend[of p K S 0] by simp
qed

lemma ratchetKey_cached:
  assumes "0 < rc"
    and "initalizeRatchetCache K S st0 =
           \<lparr>ratchetCache = Some \<lparr>key = K, salt = S, hashes = prefix_cache p K S M\<rparr>, kdfCalls = cs\<rparr>"
    and "prefix_cache p K S M rc = Some v"
  shows "ratchetKey p K S rc st0 =
           (Inr v, \<lparr>ratchetCache = Some \<lparr>key = K, salt = S, hashes = prefix_cache p K S M\<rparr>, kdfCalls = cs\<rparr>)"
  using assms by (simp add: ratchetKey_def cache_get_def)

lemma ratchetKey_computed:
  assumes "0 < rc"
    and "initalizeRatchetCache K S st0 =
           \<lparr>ratchetCache = Some \<lparr>key = K, salt = S, hashes = prefix_cache p K S M\<rparr>, kdfCalls = cs\<rparr>"
    and "prefix_cache p K S M rc = None"
  shows "ratchetKey p K S rc st0 =
           (Inr (chain_key p K S (max 1 (nat \<lfloor>rc\<rfloor>))),
            \<lparr>ratchetCache = Some \<lparr>key = K, salt = S,
                                  hashes = prefix_cache p K S (max (max 1 M) (nat \<lfloor>rc\<rfloor>))\<rparr>,
             kdfCalls = cs @ HashSaltCall S #
                        (if M = 0 then [HashCall K (Kdf_hashSalt p S)] else []) @
                        map (\<lambda>n. FastHashCall (chain_key p K S n) (Kdf_hashSalt p S))
                          [max 1 M ..< nat \<lfloor>rc\<rfloor>]\<rparr>)"
proof -
  let ?hs = "Kdf_hashSalt p S"
  let ?st = "\<lambda>M cs. \<lparr>ratchetCache = Some \<lparr>key = K, salt = S, hashes = prefix_cache p K S M\<rparr>, kdfCalls = cs\<rparr>"
  let ?cs' = "cs @ HashSaltCall S # (if M = 0 then [HashCall K ?hs] else [])"
  have loop: "ratchetLoop p ?hs rc 2 (chain_key p K S 1) (?st (max 1 M) ?cs') =
      (Inr (chain_key p K S (max 1 (nat \<lfloor>rc\<rfloor>))),
       ?st (max (max 1 M) (nat \<lfloor>rc\<rfloor>))
         (?cs' @ map (\<lambda>n. FastHashCall (chain_key p K S n) ?hs) [max 1 M ..< nat \<lfloor>rc\<rfloor>]))"
    using ratchetLoop_prefix[of 1 "max 1 M" p S rc K ?cs'] by (simp add: numeral_2_eq_2)
  show ?thesis
  proof (cases "M = 0")
    case True
    have set1: "cache_set (?st 0 (cs @ [HashSaltCall S, HashCall K ?hs])) 1 (chain_key p K S 1)
                  = Inr (?st (max 1 M) ?cs')"
      using prefix_cache_set_1[of p K S 0] True by (simp add: cache_set_def)
    show ?thesis
      using assms True loop set1
      by (simp add: ratchetKey_def cache_get_def called_def prefix_cache_1 strong_chain_key Let_def)
  next
    case False
    have set1: "cache_set (?st M (cs @ [HashSaltCall S])) 1 (chain_key p K S 1)
                  = Inr (?st (max 1 M) ?cs')"
      using prefix_cache_set_1[of p K S M] False by (simp add: cache_set_def)
    show ?thesis
      using assms False loop set1
      by (simp add: ratchetKey_def cache_get_def called_def prefix_cache_1 Let_def)
  qed
qed

lemma ratchetKey_error:
  "rc \<le> 0 \<Longrightarrow> ratchetKey p K S rc st = (Inl (Error ''Ratchet count must be larger than 0''), st)"
  by (simp add: ratchetKey_def)

lemma init_form:
  assumes "cache_ok p st0"
  shows "\<exists>M. initalizeRatchetCache K S st0 =
           \<lparr>ratchetCache = Some \<lparr>key = K, salt = S, hashes = prefix_cache p K S M\<rparr>,
            kdfCalls = kdfCalls st0\<rparr>"
proof (cases "map_option key (ratchetCache st0) \<noteq> Some K \<or> map_option salt (ratchetCache st0) \<noteq> Some S")
  case True
  then have "initalizeRatchetCache K S st0 =
           \<lparr>ratchetCache = Some \<lparr>key = K, salt = S, hashes = prefix_cache p K S 0\<rparr>,
            kdfCalls = kdfCalls st0\<rparr>"
    by (simp add: initalizeRatchetCache_def prefix_cache_0)
  then show ?thesis ..
next
  case False
  then obtain c where c: "ratchetCache st0 = Some c" "key c = K" "salt c = S"
    by (cases "ratchetCache st0") auto
  with assms obtain M where M: "hashes c = prefix_cache p K S M"
    by (auto simp add: cache_ok_def)
  have "c = \<lparr>key = K, salt = S, hashes = prefix_cache p K S M\<rparr>"
    using c M by simp
  with c have "initalizeRatchetCache K S st0 =
           \<lparr>ratchetCache = Some \<lparr>key = K, salt = S, hashes = prefix_cache p K S M\<rparr>,
            kdfCalls = kdfCalls st0\<rparr>"
    using False by (simp add: initalizeRatchetCache_def)
  then show ?thesis ..
qed

lemma prefix_cache_Some:
  assumes "prefix_cache p K S M rc = Some v"
  shows "v = chain_key p K S (nat \<lfloor>rc\<rfloor>) \<and> 1 \<le> nat \<lfloor>rc\<rfloor> \<and> 1 \<le> M \<and> of_int \<lfloor>rc\<rfloor> = rc"
proof -
  from assms have h: "of_int \<lfloor>rc\<rfloor> = rc" "1 \<le> rc" "rc \<le> of_nat M" "v = chain_key p K S (nat \<lfloor>rc\<rfloor>)"
    by (auto simp add: prefix_cache_def split: if_splits)
  from h(2) have "1 \<le> nat \<lfloor>rc\<rfloor>"
    using of_nat_le_floor[of 1 rc] by simp
  moreover from h(2,3) have "(1::rat) \<le> of_nat M" by simp
  then have "1 \<le> M" by simp
  ultimately show ?thesis using h by simp
qed

lemma ratchetKey_ok:
  assumes "cache_ok p st" and "0 < rc"
  shows "fst (ratchetKey p K S rc st) = Inr (chain_key p K S (max 1 (nat \<lfloor>rc\<rfloor>)))"
    and "cache_ok p (snd (ratchetKey p K S rc st))"
    and "cache_get (snd (ratchetKey p K S rc st)) 1 = Some (chain_key p K S 1)"
proof -
  from init_form[OF assms(1)] obtain M where
    init: "initalizeRatchetCache K S st =
           \<lparr>ratchetCache = Some \<lparr>key = K, salt = S, hashes = prefix_cache p K S M\<rparr>,
            kdfCalls = kdfCalls st\<rparr>" ..
  have "fst (ratchetKey p K S rc st) = Inr (chain_key p K S (max 1 (nat \<lfloor>rc\<rfloor>)))
      \<and> cache_ok p (snd (ratchetKey p K S rc st))
      \<and> cache_get (snd (ratchetKey p K S rc st)) 1 = Some (chain_key p K S 1)"
  proof (cases "prefix_cache p K S M rc")
    case None
    show ?thesis
      unfolding ratchetKey_computed[OF assms(2) init None]
      by (auto simp add: cache_ok_def cache_get_def prefix_cache_1)
  next
    case (Some v)
    from prefix_cache_Some[OF Some] have v: "v = chain_key p K S (nat \<lfloor>rc\<rfloor>)"
      and F: "1 \<le> nat \<lfloor>rc\<rfloor>" and M: "1 \<le> M" by simp_all
    from F have "max 1 (nat \<lfloor>rc\<rfloor>) = nat \<lfloor>rc\<rfloor>" by simp
    then show ?thesis
      unfolding ratchetKey_cached[OF assms(2) init Some]
      using v M by (auto simp add: cache_ok_def cache_get_def prefix_cache_1)
  qed
  then show "fst (ratchetKey p K S rc st) = Inr (chain_key p K S (max 1 (nat \<lfloor>rc\<rfloor>)))"
    and "cache_ok p (snd (ratchetKey p K S rc st))"
    and "cache_get (snd (ratchetKey p K S rc st)) 1 = Some (chain_key p K S 1)"
    by simp_all
qed

lemma reachable_cache_ok: "reachable p st \<Longrightarrow> cache_ok p st"
proof (induction rule: reachable.induct)
  case start
  show ?case by (simp add: cache_ok_def initial_def)
next
  case (ratchet st K S rc)
  show ?case
  proof (cases "0 < rc")
    case True
    with ratchet.IH show ?thesis by (rule ratchetKey_ok(2))
  next
    case False
    then have "rc \<le> 0" by simp
    then show ?thesis using ratchet.IH by (simp add: ratchetKey_error)
  qed
next
  case (clear st)
  show ?case by (simp add: cache_ok_def clearRatchetCache_def)
qed

lemma init_initial:
  "initalizeRatchetCache K S initial =
     \<lparr>ratchetCache = Some \<lparr>key = K, salt = S, hashes = prefix_cache p K S 0\<rparr>, kdfCalls = []\<rparr>"
  by (simp add: initalizeRatchetCache_def initial_def prefix_cache_0)

lemma prefix_cache_beyond: "M < N \<Longrightarrow> prefix_cache p K S M (of_nat N) = None"
  by (simp add: prefix_cache_of_nat)

lemma ratchetKey_initial:
  assumes "0 < N"
  shows "ratchetKey p K S (of_nat N) initial =
           (Inr (chain_key p K S N),
            \<lparr>ratchetCache = Some \<lparr>key = K, salt = S, hashes = prefix_cache p K S N\<rparr>,
             kdfCalls = HashSaltCall S # HashCall K (Kdf_hashSalt p S) #
                        map (\<lambda>n. FastHashCall (chain_key p K S n) (Kdf_hashSalt p S)) [1 ..< N]\<rparr>)"
proof -
  have pos: "(0::rat) < of_nat N" using assms by simp
  have none: "prefix_cache p K S 0 (of_nat N) = None"
    using assms by (rule prefix_cache_beyond)
  have m: "max (Suc 0) N = N" using assms by simp
  show ?thesis
    using ratchetKey_computed[OF pos init_initial none] by (simp add: m)
qed

lemma init_same:
  "initalizeRatchetCache K S \<lparr>ratchetCache = Some \<lparr>key = K, salt = S, hashes = h\<rparr>, kdfCalls = cs\<rparr>
     = \<lparr>ratchetCache = Some \<lparr>key = K, salt = S, hashes = h\<rparr>, kdfCalls = cs\<rparr>"
  by (simp add: initalizeRatchetCache_def)

lemma init_other:
  assumes "ratchetCache st = Some c" and "key c \<noteq> K \<or> salt c \<noteq> S"
  shows "initalizeRatchetCache K S st =
     \<lparr>ratchetCache = Some \<lparr>key = K, salt = S, hashes = prefix_cache p K S 0\<rparr>, kdfCalls = kdfCalls st\<rparr>"
  using assms by (auto simp add: initalizeRatchetCache_def prefix_cache_0)

lemma init_cleared:
  "initalizeRatchetCache K S (clearRatchetCache st) =
     \<lparr>ratchetCache = Some \<lparr>key = K, salt = S, hashes = prefix_cache p K S 0\<rparr>, kdfCalls = kdfCalls st\<rparr>"
  by (simp add: initalizeRatchetCache_def clearRatchetCache_def prefix_cache_0)

lemma strong_filter_fast:
  "filter isHashCall (map (\<lambda>n. FastHashCall (f n) h) ns) = []"
  by (induction ns) simp_all

lemma test_hashSalt: "Kdf_hashSalt testPlatform s = PRECOMPUTED_HASHED_SALT"
  by (simp add: Kdf_hashSalt_def testPlatform_def)

lemma test_chain_key_1: "chain_key testPlatform K S (Suc 0) = PRECOMPUTED_DERIVED_KEY_FIRST_PASS"
  by (simp add: chain_key_def Kdf_hash_hashed testPlatform_def)

lemma test_chain_key_2: "chain_key testPlatform K S (Suc (Suc 0)) = PRECOMPUTED_DERIVED_KEY_NEXT_PASS"
  by (simp add: chain_key_def Kdf_hash_hashed Kdf_fastHash_hashed testPlatform_def)

lemma encryptMetadata_key:
  assumes "fst (ratchetKey p K S rc st) = Inr k"
  shows "encryptMetadata p K S rc m st =
           (if truthy m \<and> typeof m \<noteq> T_object then Inl (Error ''Metadata must be an object'')
            else encrypt p k (TextEncoder_encode p (case JSON_stringify p m of None \<Rightarrow> [] | Some str \<Rightarrow> str)),
            snd (ratchetKey p K S rc st))"
  using assms by (cases "ratchetKey p K S rc st") (simp add: encryptMetadata_def Let_def)

lemma decryptMetadata_key:
  assumes "fst (ratchetKey p K S rc st) = Inr k"
  shows "decryptMetadata p K S rc blob st =
           (case decrypt p k blob of
              Inl e \<Rightarrow> Inl e
            | Inr decryptedMetadata \<Rightarrow>
                (case JSON_parse p (TextDecoder_decode p decryptedMetadata) of
                   None \<Rightarrow> Inl SyntaxError
                 | Some metadata \<Rightarrow>
                     if truthy metadata \<and> typeof metadata \<noteq> T_object
                     then Inl (Error ''Metadata must be an object'')
                     else
                       (case get_contentKeyBase64 metadata of
                          Inl e \<Rightarrow> Inl e
                        | Inr contentKeyBase64 \<Rightarrow>
                            if \<not> truthy contentKeyBase64
                            then Inl (Error ''content key not found in metadata'')
                            else Inr metadata)),
            snd (ratchetKey p K S rc st))"
  using assms
  by (cases "ratchetKey p K S rc st")
     (simp add: decryptMetadata_def Let_def split: sum.split option.split)

lemma encrypt_not_ratchet_error:
  "encrypt p k v \<noteq> Inl (Error ''Ratchet count must be larger than 0'')"
  by (simp add: encrypt_def Let_def split: option.split)

lemma get_contentKeyBase64_error: "get_contentKeyBase64 v = Inl e \<Longrightarrow> e = TypeError"
  by (cases v) (auto split: option.splits)


lemma nat_max_1: "nat (max 1 z) = max 1 (nat z)"
  by (cases "1 \<le> z") (auto simp add: max_def)

lemma test_key_1: "fst (ratchetKey testPlatform KEYPHRASE SALT 1 initial) = Inr PRECOMPUTED_DERIVED_KEY_FIRST_PASS"
  by code_simp

lemma snd_encryptMetadata:
  "snd (encryptMetadata p K S rc m st) = snd (ratchetKey p K S rc st)"
  by (cases "ratchetKey p K S rc st")
     (simp add: encryptMetadata_def Let_def split: sum.split)

lemma snd_decryptMetadata:
  "snd (decryptMetadata p K S rc blob st) = snd (ratchetKey p K S rc st)"
  by (cases "ratchetKey p K S rc st")
     (simp add: decryptMetadata_def Let_def split: sum.split option.split)

lemma reachable_encryptMetadata:
  "reachable p st \<Longrightarrow> reachable p (snd (encryptMetadata p K S rc m st))"
  unfolding snd_encryptMetadata by (rule reachable.ratchet)

lemma reachable_decryptMetadata:
  "reachable p st \<Longrightarrow> reachable p (snd (decryptMetadata p K S rc blob st))"
  unfolding snd_decryptMetadata by (rule reachable.ratchet)

lemma test_chain_2:
  "spec_ratchet_chain testPlatform KEYPHRASE SALT 2 = Inr PRECOMPUTED_DERIVED_KEY_NEXT_PASS"
  by (simp add: numeral_2_eq_2 Kdf_hash_hashed Kdf_fastHash_hashed testPlatform_def)

section \<open>Claims\<close>

text \<open>
  C1. For every keyphrase \<open>K\<close>, salt \<open>S\<close> and whole index \<open>N \<ge> 1\<close>, in every state
  the program can be in, \<open>ratchetKey\<close> returns the \<open>N\<close>-th key of the chain of the
  specification: \<open>k\<^sub>1\<close> is the strong hash of \<open>K\<close> under the SHA-256 digest of the UTF-8
  encoding of \<open>S\<close>, and each later key is the fast hash of the one before under the same
  digest. On an empty cache the salt is digested once, and that digest is the salt of the
  strong hash and of every fast hash that follows.
\<close>

theorem ratchetKey_is_spec_chain:
  assumes "reachable p st" and "0 < N"
  shows "fst (ratchetKey p K S (of_nat N) st) = spec_ratchet_chain p K S N
       \<and> spec_ratchet_chain p K S 1 =
           Inr (argon2_hash p (Inl K) (digest_SHA256 p (TextEncoder_encode p S)) Argon2id 19456 2 1 32)
       \<and> kdfCalls (snd (ratchetKey p K S (of_nat N) initial)) =
           HashSaltCall S # HashCall K (Kdf_hashSalt p S) #
           map (\<lambda>n. FastHashCall (chain_key p K S n) (Kdf_hashSalt p S)) [1 ..< N]"
proof -
  have ok: "cache_ok p st" using assms(1) by (rule reachable_cache_ok)
  have pos: "(0::rat) < of_nat N" using assms(2) by simp
  have m: "max 1 (nat \<lfloor>rat_of_nat N\<rfloor>) = N" using assms(2) by simp
  have "fst (ratchetKey p K S (of_nat N) st) = Inr (chain_key p K S N)"
    using ratchetKey_ok(1)[OF ok pos, of K S] by (simp only: m)
  then have a: "fst (ratchetKey p K S (of_nat N) st) = spec_ratchet_chain p K S N"
    using spec_chain_Inr[OF assms(2), of p K S] by simp
  have b: "spec_ratchet_chain p K S 1 =
           Inr (argon2_hash p (Inl K) (digest_SHA256 p (TextEncoder_encode p S)) Argon2id 19456 2 1 32)"
    by (simp add: Kdf_hash_hashed Kdf_hashSalt_def)
  have c: "kdfCalls (snd (ratchetKey p K S (of_nat N) initial)) =
           HashSaltCall S # HashCall K (Kdf_hashSalt p S) #
           map (\<lambda>n. FastHashCall (chain_key p K S n) (Kdf_hashSalt p S)) [1 ..< N]"
    by (simp add: ratchetKey_initial[OF assms(2)])
  from a b c show ?thesis by blast
qed

theorem ratchetKey_is_spec_chain_witness:
  "reachable testPlatform initial \<and> (0::nat) < 2
   \<and> fst (ratchetKey testPlatform KEYPHRASE SALT 2 initial) = Inr PRECOMPUTED_DERIVED_KEY_NEXT_PASS
   \<and> kdfCalls (snd (ratchetKey testPlatform KEYPHRASE SALT 2 initial)) =
       [HashSaltCall SALT, HashCall KEYPHRASE PRECOMPUTED_HASHED_SALT,
        FastHashCall PRECOMPUTED_DERIVED_KEY_FIRST_PASS PRECOMPUTED_HASHED_SALT]"
proof -
  have r: "reachable testPlatform initial" by (rule reachable.start)
  have ck: "chain_key testPlatform KEYPHRASE SALT 1 = PRECOMPUTED_DERIVED_KEY_FIRST_PASS"
    by (simp add: chain_key_def Kdf_hash_hashed testPlatform_def)
  have hs: "Kdf_hashSalt testPlatform SALT = PRECOMPUTED_HASHED_SALT"
    by (simp add: Kdf_hashSalt_def testPlatform_def)
  have u: "[1 ..< (2::nat)] = [1]" by (simp add: upt_conv_Cons)
  show ?thesis
    using r ratchetKey_is_spec_chain[OF r, of 2 KEYPHRASE SALT] test_chain_2 ck hs u by simp
qed

text \<open>
  C2. For every keyphrase \<open>K\<close>, salt \<open>S\<close> and whole indices \<open>1 \<le> M < N\<close>: after
  \<open>ratchetKey\<close> at \<open>M\<close> on an empty cache, \<open>ratchetKey\<close> at \<open>N\<close> returns the key
  that it returns on an empty cache, and leaves the same cache. The calls it adds are one
  digest of the salt and the fast hashes of \<open>k\<^sub>M\<close> to \<open>k\<^bsub>N-1\<^esub>\<close>, which give
  \<open>k\<^bsub>M+1\<^esub>\<close> to \<open>k\<^sub>N\<close>; the number of strong hashes stays what it was.
\<close>

theorem cached_prefix_reused:
  assumes "1 \<le> M" and "M < N"
  shows "fst (ratchetKey p K S (of_nat N) (snd (ratchetKey p K S (of_nat M) initial)))
           = fst (ratchetKey p K S (of_nat N) initial)
       \<and> kdfCalls (snd (ratchetKey p K S (of_nat N) (snd (ratchetKey p K S (of_nat M) initial))))
           = kdfCalls (snd (ratchetKey p K S (of_nat M) initial)) @
             HashSaltCall S #
             map (\<lambda>n. FastHashCall (chain_key p K S n) (Kdf_hashSalt p S)) [M ..< N]
       \<and> strongHashCalls (snd (ratchetKey p K S (of_nat N) (snd (ratchetKey p K S (of_nat M) initial))))
           = strongHashCalls (snd (ratchetKey p K S (of_nat M) initial))
       \<and> ratchetCache (snd (ratchetKey p K S (of_nat N) (snd (ratchetKey p K S (of_nat M) initial))))
           = ratchetCache (snd (ratchetKey p K S (of_nat N) initial))"
proof -
  let ?hs = "Kdf_hashSalt p S"
  let ?f = "\<lambda>n. FastHashCall (chain_key p K S n) ?hs"
  let ?cs1 = "HashSaltCall S # HashCall K ?hs # map ?f [1 ..< M]"
  let ?st1 = "\<lparr>ratchetCache = Some \<lparr>key = K, salt = S, hashes = prefix_cache p K S M\<rparr>, kdfCalls = ?cs1\<rparr>"
  have M0: "0 < M" and N0: "0 < N" using assms by simp_all
  have first: "snd (ratchetKey p K S (of_nat M) initial) = ?st1"
    by (simp add: ratchetKey_initial[OF M0])
  have direct: "ratchetKey p K S (of_nat N) initial =
           (Inr (chain_key p K S N),
            \<lparr>ratchetCache = Some \<lparr>key = K, salt = S, hashes = prefix_cache p K S N\<rparr>,
             kdfCalls = HashSaltCall S # HashCall K ?hs # map ?f [1 ..< N]\<rparr>)"
    by (rule ratchetKey_initial[OF N0])
  have pos: "(0::rat) < of_nat N" using N0 by simp
  have none: "prefix_cache p K S M (of_nat N) = None"
    using assms(2) by (rule prefix_cache_beyond)
  have m1: "max (Suc 0) N = N" using N0 by simp
  have m2: "max M N = N" using assms by simp
  have m3: "max (Suc 0) M = M" using M0 by simp
  have second: "ratchetKey p K S (of_nat N) ?st1 =
           (Inr (chain_key p K S N),
            \<lparr>ratchetCache = Some \<lparr>key = K, salt = S, hashes = prefix_cache p K S N\<rparr>,
             kdfCalls = ?cs1 @ HashSaltCall S # map ?f [M ..< N]\<rparr>)"
    using ratchetKey_computed[OF pos init_same none] M0 by (simp add: m1 m2 m3)
  show ?thesis
    unfolding first unfolding second direct
    by (simp add: strongHashCalls_def strong_filter_fast)
qed

theorem cached_prefix_reused_witness:
  "(1::nat) \<le> 1 \<and> (1::nat) < 3
   \<and> fst (ratchetKey testPlatform KEYPHRASE SALT 3
            (snd (ratchetKey testPlatform KEYPHRASE SALT 1 initial)))
       = fst (ratchetKey testPlatform KEYPHRASE SALT 3 initial)
   \<and> kdfCalls (snd (ratchetKey testPlatform KEYPHRASE SALT 3
            (snd (ratchetKey testPlatform KEYPHRASE SALT 1 initial))))
       = kdfCalls (snd (ratchetKey testPlatform KEYPHRASE SALT 1 initial)) @
         [HashSaltCall SALT,
          FastHashCall PRECOMPUTED_DERIVED_KEY_FIRST_PASS PRECOMPUTED_HASHED_SALT,
          FastHashCall PRECOMPUTED_DERIVED_KEY_NEXT_PASS PRECOMPUTED_HASHED_SALT]
   \<and> strongHashCalls (snd (ratchetKey testPlatform KEYPHRASE SALT 3
            (snd (ratchetKey testPlatform KEYPHRASE SALT 1 initial))))
       = strongHashCalls (snd (ratchetKey testPlatform KEYPHRASE SALT 1 initial))"
proof -
  have ck1: "chain_key testPlatform KEYPHRASE SALT (Suc 0) = PRECOMPUTED_DERIVED_KEY_FIRST_PASS"
    by (simp add: chain_key_def Kdf_hash_hashed testPlatform_def)
  have ck2: "chain_key testPlatform KEYPHRASE SALT (Suc (Suc 0)) = PRECOMPUTED_DERIVED_KEY_NEXT_PASS"
    by (simp add: chain_key_def Kdf_hash_hashed Kdf_fastHash_hashed testPlatform_def)
  have hs: "Kdf_hashSalt testPlatform SALT = PRECOMPUTED_HASHED_SALT"
    by (simp add: Kdf_hashSalt_def testPlatform_def)
  have u: "[1 ..< (3::nat)] = [Suc 0, Suc (Suc 0)]" by (simp add: upt_conv_Cons)
  show ?thesis
    using cached_prefix_reused[of 1 3 testPlatform KEYPHRASE SALT] ck1 ck2 hs u by simp
qed



text \<open>
  C4 as stated fails: the number 0 is not an object, and \<open>encryptMetadata\<close> returns a
  ciphertext for it; with the index 0 the number 5 is refused with the error of the
  ratchet, not with "Metadata must be an object".
\<close>

theorem falsy_metadata_encrypted:
  "typeof (Number 0) = T_number
   \<and> fst (encryptMetadata testPlatform KEYPHRASE SALT 1 (Number 0) initial) = Inr ZERO_BLOB
   \<and> typeof (Number 5) = T_number
   \<and> fst (encryptMetadata testPlatform KEYPHRASE SALT 0 (Number 5) initial) =
       Inl (Error ''Ratchet count must be larger than 0'')"
  by code_simp

text \<open>
  C4, as amended. For every index above 0, in every state the program can be in, and
  every metadata argument that is truthy and not an object (a number other than 0, a
  non-empty string, \<open>true\<close>), \<open>encryptMetadata\<close> fails with "Metadata must be an
  object" and returns no ciphertext.
\<close>

theorem truthy_non_object_metadata_rejected:
  assumes "reachable p st" and "0 < rc" and "truthy m" and "typeof m \<noteq> T_object"
  shows "fst (encryptMetadata p K S rc m st) = Inl (Error ''Metadata must be an object'')"
proof -
  have "fst (ratchetKey p K S rc st) = Inr (chain_key p K S (max 1 (nat \<lfloor>rc\<rfloor>)))"
    using ratchetKey_ok(1)[OF reachable_cache_ok[OF assms(1)] assms(2)] .
  then show ?thesis using assms(3,4) by (simp add: encryptMetadata_key)
qed

theorem truthy_non_object_metadata_rejected_witness:
  "reachable testPlatform initial \<and> (0::rat) < 1 \<and> truthy (Number 5) \<and> typeof (Number 5) \<noteq> T_object
   \<and> fst (encryptMetadata testPlatform KEYPHRASE SALT 1 (Number 5) initial) =
       Inl (Error ''Metadata must be an object'')"
proof -
  have r: "reachable testPlatform initial" by (rule reachable.start)
  have pos: "(0::rat) < 1" by simp
  have t: "truthy (Number 5)" by simp
  have n: "typeof (Number 5) \<noteq> T_object" by simp
  show ?thesis
    by (intro conjI r pos t n truthy_non_object_metadata_rejected[OF r pos t n])
qed

text \<open>
  C5 as stated fails: a blob that decrypts to \<open>{"contentKeyBase64":"abc"}\<close>, whose key
  is not base64 of 32 bytes, is answered with that record.
\<close>

theorem malformed_content_key_accepted:
  "fst (decryptMetadata testPlatform KEYPHRASE SALT 1 SHORT_KEY_BLOB initial) =
     Inr (Object [(''contentKeyBase64'', String ''abc'')])
   \<and> toByteArray testPlatform ''abc'' = None"
  by code_simp

text \<open>
  C5, as amended. When the blob decrypts under the ratcheted key and parses to a record:
  if the record has no \<open>contentKeyBase64\<close> field, \<open>decryptMetadata\<close> fails with
  "content key not found in metadata"; if the field is present and truthy, the record is
  returned as it is, whatever the field decodes to. The length of the decoded key is not
  looked at.
\<close>

theorem content_key_presence_checked:
  assumes "fst (ratchetKey p K S rc st) = Inr k"
    and "decrypt p k blob = Inr pt"
    and "JSON_parse p (TextDecoder_decode p pt) = Some (Object kvs)"
  shows "(map_of kvs ''contentKeyBase64'' = None \<longrightarrow>
            fst (decryptMetadata p K S rc blob st) = Inl (Error ''content key not found in metadata''))
       \<and> (\<forall>v. map_of kvs ''contentKeyBase64'' = Some v \<and> truthy v \<longrightarrow>
            fst (decryptMetadata p K S rc blob st) = Inr (Object kvs))"
  using assms(2-3) by (simp add: decryptMetadata_key[OF assms(1)])

theorem content_key_presence_checked_witness:
  "fst (ratchetKey testPlatform KEYPHRASE SALT 1 initial) = Inr PRECOMPUTED_DERIVED_KEY_FIRST_PASS
   \<and> decrypt testPlatform PRECOMPUTED_DERIVED_KEY_FIRST_PASS NO_KEY_BLOB =
       Inr (test_encode NO_KEY_METADATA_JSON)
   \<and> JSON_parse testPlatform (TextDecoder_decode testPlatform (test_encode NO_KEY_METADATA_JSON)) =
       Some (Object [(''fileName'', String ''test.txt'')])
   \<and> fst (decryptMetadata testPlatform KEYPHRASE SALT 1 NO_KEY_BLOB initial) =
       Inl (Error ''content key not found in metadata'')
   \<and> decrypt testPlatform PRECOMPUTED_DERIVED_KEY_FIRST_PASS SHORT_KEY_BLOB =
       Inr (test_encode SHORT_KEY_METADATA_JSON)
   \<and> JSON_parse testPlatform (TextDecoder_decode testPlatform (test_encode SHORT_KEY_METADATA_JSON)) =
       Some (Object [(''contentKeyBase64'', String ''abc'')])
   \<and> fst (decryptMetadata testPlatform KEYPHRASE SALT 1 SHORT_KEY_BLOB initial) =
       Inr (Object [(''contentKeyBase64'', String ''abc'')])"
proof -
  have a2: "decrypt testPlatform PRECOMPUTED_DERIVED_KEY_FIRST_PASS NO_KEY_BLOB =
       Inr (test_encode NO_KEY_METADATA_JSON)"
    by code_simp
  have a3: "JSON_parse testPlatform (TextDecoder_decode testPlatform (test_encode NO_KEY_METADATA_JSON)) =
       Some (Object [(''fileName'', String ''test.txt'')])"
    by code_simp
  have a4: "map_of [(''fileName'', String ''test.txt'')] ''contentKeyBase64'' = None"
    by simp
  have b2: "decrypt testPlatform PRECOMPUTED_DERIVED_KEY_FIRST_PASS SHORT_KEY_BLOB =
       Inr (test_encode SHORT_KEY_METADATA_JSON)"
    by code_simp
  have b3: "JSON_parse testPlatform (TextDecoder_decode testPlatform (test_encode SHORT_KEY_METADATA_JSON)) =
       Some (Object [(''contentKeyBase64'', String ''abc'')])"
    by code_simp
  have b4: "map_of [(''contentKeyBase64'', String ''abc'')] ''contentKeyBase64'' = Some (String ''abc'')
            \<and> truthy (String ''abc'')"
    by simp
  note A = content_key_presence_checked[OF test_key_1 a2 a3, THEN conjunct1, THEN mp, OF a4]
  note B = content_key_presence_checked[OF test_key_1 b2 b3, THEN conjunct2, THEN spec, THEN mp, OF b4]
  show ?thesis
    by (intro conjI test_key_1 a2 a3 A b2 b3 B)
qed

text \<open>
  C6 as stated fails: a request for another pair with the index 0 is refused by the guard
  of \<open>ratchetKey\<close> before the cache is looked at, so the cache of the old pair and the
  key it holds stay; after \<open>clearRatchetCache\<close> the same request leaves no cache.
\<close>

theorem rejected_request_keeps_other_cache:
  "map_option key (ratchetCache OTHER_SESSION) = Some ''another phrase''
   \<and> ''another phrase'' \<noteq> KEYPHRASE
   \<and> ratchetKey testPlatform KEYPHRASE SALT 0 OTHER_SESSION =
       (Inl (Error ''Ratchet count must be larger than 0''), OTHER_SESSION)
   \<and> map_option key (ratchetCache (snd (ratchetKey testPlatform KEYPHRASE SALT 0 OTHER_SESSION))) =
       Some ''another phrase''
   \<and> cache_get (snd (ratchetKey testPlatform KEYPHRASE SALT 0 OTHER_SESSION)) 1 =
       Some PRECOMPUTED_DERIVED_KEY_NEXT_PASS
   \<and> ratchetCache (snd (ratchetKey testPlatform KEYPHRASE SALT 0 (clearRatchetCache OTHER_SESSION))) = None"
proof -
  have z: "(0::rat) \<le> 0" by simp
  have a: "ratchetKey testPlatform KEYPHRASE SALT 0 OTHER_SESSION =
       (Inl (Error ''Ratchet count must be larger than 0''), OTHER_SESSION)"
    using z by (rule ratchetKey_error)
  have b: "ratchetKey testPlatform KEYPHRASE SALT 0 (clearRatchetCache OTHER_SESSION) =
       (Inl (Error ''Ratchet count must be larger than 0''), clearRatchetCache OTHER_SESSION)"
    using z by (rule ratchetKey_error)
  have k: "map_option key (ratchetCache OTHER_SESSION) = Some ''another phrase''"
    by (simp add: OTHER_SESSION_def)
  have n: "''another phrase'' \<noteq> KEYPHRASE" by (simp add: KEYPHRASE_def)
  have g: "cache_get OTHER_SESSION 1 = Some PRECOMPUTED_DERIVED_KEY_NEXT_PASS"
    by (simp add: OTHER_SESSION_def cache_get_def)
  have c: "ratchetCache (clearRatchetCache OTHER_SESSION) = None"
    by (simp add: clearRatchetCache_def)
  show ?thesis
    unfolding a b using k n g c by simp
qed

text \<open>
  C6, as amended. The cache is one record for one pair of keyphrase and salt. A request
  with an index above 0 and a pair that differs from the cached one in keyphrase or in
  salt discards the old cache whole before computing, whatever it holds: \<open>ratchetKey\<close>
  returns the key of the requested pair's own chain and leaves the state it leaves after
  \<open>clearRatchetCache\<close>, whose cache holds the requested pair and the keys of its chain
  only. For every index, what \<open>ratchetKey\<close> answers is what it answers after
  \<open>clearRatchetCache\<close>, so no key computed under another pair is returned.
\<close>

theorem other_pair_discards_cache:
  assumes "ratchetCache st = Some c" and "key c \<noteq> K \<or> salt c \<noteq> S"
  shows "fst (ratchetKey p K S rc st) = fst (ratchetKey p K S rc (clearRatchetCache st))
       \<and> (0 < rc \<longrightarrow>
            ratchetKey p K S rc st = ratchetKey p K S rc (clearRatchetCache st)
          \<and> ratchetKey p K S rc st =
              (Inr (chain_key p K S (max 1 (nat \<lfloor>rc\<rfloor>))),
               \<lparr>ratchetCache = Some \<lparr>key = K, salt = S,
                                     hashes = prefix_cache p K S (max 1 (nat \<lfloor>rc\<rfloor>))\<rparr>,
                kdfCalls = kdfCalls st @ HashSaltCall S # HashCall K (Kdf_hashSalt p S) #
                           map (\<lambda>n. FastHashCall (chain_key p K S n) (Kdf_hashSalt p S))
                             [1 ..< nat \<lfloor>rc\<rfloor>]\<rparr>))"
proof (cases "0 < rc")
  case True
  have none: "prefix_cache p K S 0 rc = None"
    by (simp add: prefix_cache_0)
  have a: "ratchetKey p K S rc st =
              (Inr (chain_key p K S (max 1 (nat \<lfloor>rc\<rfloor>))),
               \<lparr>ratchetCache = Some \<lparr>key = K, salt = S,
                                     hashes = prefix_cache p K S (max 1 (nat \<lfloor>rc\<rfloor>))\<rparr>,
                kdfCalls = kdfCalls st @ HashSaltCall S # HashCall K (Kdf_hashSalt p S) #
                           map (\<lambda>n. FastHashCall (chain_key p K S n) (Kdf_hashSalt p S))
                             [1 ..< nat \<lfloor>rc\<rfloor>]\<rparr>)"
    using ratchetKey_computed[OF True init_other[OF assms] none] by simp
  have b: "ratchetKey p K S rc (clearRatchetCache st) =
              (Inr (chain_key p K S (max 1 (nat \<lfloor>rc\<rfloor>))),
               \<lparr>ratchetCache = Some \<lparr>key = K, salt = S,
                                     hashes = prefix_cache p K S (max 1 (nat \<lfloor>rc\<rfloor>))\<rparr>,
                kdfCalls = kdfCalls st @ HashSaltCall S # HashCall K (Kdf_hashSalt p S) #
                           map (\<lambda>n. FastHashCall (chain_key p K S n) (Kdf_hashSalt p S))
                             [1 ..< nat \<lfloor>rc\<rfloor>]\<rparr>)"
    using ratchetKey_computed[OF True init_cleared none] by simp
  from a b show ?thesis by simp
next
  case False
  then have "rc \<le> 0" by simp
  then show ?thesis by (simp add: ratchetKey_error)
qed

theorem other_pair_discards_cache_witness:
  "ratchetCache OTHER_SESSION =
     Some \<lparr>key = ''another phrase'', salt = SALT, hashes = [1 \<mapsto> PRECOMPUTED_DERIVED_KEY_NEXT_PASS]\<rparr>
   \<and> ''another phrase'' \<noteq> KEYPHRASE
   \<and> cache_get OTHER_SESSION 1 = Some PRECOMPUTED_DERIVED_KEY_NEXT_PASS
   \<and> fst (ratchetKey testPlatform KEYPHRASE SALT 1 OTHER_SESSION) = Inr PRECOMPUTED_DERIVED_KEY_FIRST_PASS
   \<and> kdfCalls (snd (ratchetKey testPlatform KEYPHRASE SALT 1 OTHER_SESSION)) =
       [HashSaltCall SALT, HashCall KEYPHRASE PRECOMPUTED_HASHED_SALT]
   \<and> map_option key (ratchetCache (snd (ratchetKey testPlatform KEYPHRASE SALT 1 OTHER_SESSION))) = Some KEYPHRASE
   \<and> cache_get (snd (ratchetKey testPlatform KEYPHRASE SALT 1 OTHER_SESSION)) 1 = Some PRECOMPUTED_DERIVED_KEY_FIRST_PASS"
proof -
  have c: "ratchetCache OTHER_SESSION =
     Some \<lparr>key = ''another phrase'', salt = SALT, hashes = [1 \<mapsto> PRECOMPUTED_DERIVED_KEY_NEXT_PASS]\<rparr>"
    by (simp add: OTHER_SESSION_def)
  have d: "key \<lparr>key = ''another phrase'', salt = SALT, hashes = [1 \<mapsto> PRECOMPUTED_DERIVED_KEY_NEXT_PASS]\<rparr> \<noteq> KEYPHRASE
           \<or> salt \<lparr>key = ''another phrase'', salt = SALT, hashes = [1 \<mapsto> PRECOMPUTED_DERIVED_KEY_NEXT_PASS]\<rparr> \<noteq> SALT"
    by (simp add: KEYPHRASE_def)
  have e: "kdfCalls OTHER_SESSION = []" by (simp add: OTHER_SESSION_def)
  have g: "cache_get OTHER_SESSION 1 = Some PRECOMPUTED_DERIVED_KEY_NEXT_PASS"
    by (simp add: OTHER_SESSION_def cache_get_def)
  have n: "''another phrase'' \<noteq> KEYPHRASE" by (simp add: KEYPHRASE_def)
  have pos: "(0::rat) < 1" by simp
  note T = other_pair_discards_cache[OF c d, of testPlatform 1]
  have full: "ratchetKey testPlatform KEYPHRASE SALT 1 OTHER_SESSION =
      (Inr PRECOMPUTED_DERIVED_KEY_FIRST_PASS,
       \<lparr>ratchetCache = Some \<lparr>key = KEYPHRASE, salt = SALT,
                              hashes = prefix_cache testPlatform KEYPHRASE SALT (Suc 0)\<rparr>,
        kdfCalls = [HashSaltCall SALT, HashCall KEYPHRASE PRECOMPUTED_HASHED_SALT]\<rparr>)"
    using T[THEN conjunct2, THEN mp, OF pos, THEN conjunct2]
    by (simp add: test_hashSalt test_chain_key_1 e)
  show ?thesis
    unfolding full using c g n
    by (simp add: cache_get_def prefix_cache_of_nat[of _ _ _ _ "Suc 0", simplified] test_chain_key_1)
qed

text \<open>
  C7. For every index that is zero or negative, \<open>encryptMetadata\<close> and
  \<open>decryptMetadata\<close> fail with the error "Ratchet count must be larger than 0", for
  any keyphrase, salt and payload, and leave the state as it was: no key is derived and
  nothing is cached.
\<close>

theorem nonpositive_index_rejected:
  assumes "rc \<le> 0"
  shows "encryptMetadata p K S rc m st = (Inl (Error ''Ratchet count must be larger than 0''), st)
       \<and> decryptMetadata p K S rc blob st = (Inl (Error ''Ratchet count must be larger than 0''), st)"
  using assms by (simp add: encryptMetadata_def decryptMetadata_def ratchetKey_error)

theorem nonpositive_index_rejected_witness:
  "(0::rat) \<le> 0 \<and> (- 3 / 2 :: rat) \<le> 0
   \<and> encryptMetadata testPlatform KEYPHRASE SALT 0 PLAINTEXT_METADATA initial =
       (Inl (Error ''Ratchet count must be larger than 0''), initial)
   \<and> decryptMetadata testPlatform KEYPHRASE SALT (- 3 / 2) [] initial =
       (Inl (Error ''Ratchet count must be larger than 0''), initial)"
  using nonpositive_index_rejected[of 0 testPlatform KEYPHRASE SALT PLAINTEXT_METADATA initial "[]"]
    nonpositive_index_rejected[of "- 3 / 2" testPlatform KEYPHRASE SALT PLAINTEXT_METADATA initial "[]"]
  by simp

text \<open>
  C8. \<open>createKeyPairFromKeyPhrase\<close> reads no state: its private key is the strong hash
  of the keyphrase under the SHA-256 digest of the salt, its public key is the Ed25519
  library's public key of that private key. \<open>ratchetKey\<close> at index 1 returns the same
  key from any two states the program can be in, which is that strong hash again.
\<close>

theorem derivation_deterministic:
  assumes "reachable p st" and "reachable p st'"
  shows "createKeyPairFromKeyPhrase p K S =
           Inr \<lparr>publicKey = getPublicKeyAsync p
                               (argon2_hash p (Inl K) (digest_SHA256 p (TextEncoder_encode p S)) Argon2id 19456 2 1 32),
                privateKey = argon2_hash p (Inl K) (digest_SHA256 p (TextEncoder_encode p S)) Argon2id 19456 2 1 32\<rparr>
       \<and> fst (ratchetKey p K S 1 st) = fst (ratchetKey p K S 1 st')
       \<and> fst (ratchetKey p K S 1 st) =
           Inr (argon2_hash p (Inl K) (digest_SHA256 p (TextEncoder_encode p S)) Argon2id 19456 2 1 32)"
proof -
  have ck: "chain_key p K S (Suc 0) =
      argon2_hash p (Inl K) (digest_SHA256 p (TextEncoder_encode p S)) Argon2id 19456 2 1 32"
    by (simp add: chain_key_def Kdf_hash_hashed Kdf_hashSalt_def)
  have a: "fst (ratchetKey p K S 1 st) = Inr (chain_key p K S (Suc 0))"
    using ratchetKey_ok(1)[OF reachable_cache_ok[OF assms(1)], of 1 K S] by simp
  have b: "fst (ratchetKey p K S 1 st') = Inr (chain_key p K S (Suc 0))"
    using ratchetKey_ok(1)[OF reachable_cache_ok[OF assms(2)], of 1 K S] by simp
  have c: "createKeyPairFromKeyPhrase p K S =
           Inr \<lparr>publicKey = getPublicKeyAsync p
                               (argon2_hash p (Inl K) (digest_SHA256 p (TextEncoder_encode p S)) Argon2id 19456 2 1 32),
                privateKey = argon2_hash p (Inl K) (digest_SHA256 p (TextEncoder_encode p S)) Argon2id 19456 2 1 32\<rparr>"
    by (simp add: createKeyPairFromKeyPhrase_def Kdf_hash_def Kdf_hashSalt_def)
  from a b c show ?thesis by (simp add: ck)
qed

theorem derivation_deterministic_witness:
  "reachable testPlatform initial
   \<and> reachable testPlatform (snd (ratchetKey testPlatform KEYPHRASE SALT 2 initial))
   \<and> createKeyPairFromKeyPhrase testPlatform KEYPHRASE SALT =
       Inr \<lparr>publicKey = rev PRECOMPUTED_DERIVED_KEY_FIRST_PASS,
            privateKey = PRECOMPUTED_DERIVED_KEY_FIRST_PASS\<rparr>
   \<and> fst (ratchetKey testPlatform KEYPHRASE SALT 1 initial) =
       fst (ratchetKey testPlatform KEYPHRASE SALT 1 (snd (ratchetKey testPlatform KEYPHRASE SALT 2 initial)))
   \<and> fst (ratchetKey testPlatform KEYPHRASE SALT 1 initial) = Inr PRECOMPUTED_DERIVED_KEY_FIRST_PASS"
proof -
  have r1: "reachable testPlatform initial" by (rule reachable.start)
  have r2: "reachable testPlatform (snd (ratchetKey testPlatform KEYPHRASE SALT 2 initial))"
    using r1 by (rule reachable.ratchet)
  have v: "argon2_hash testPlatform (Inl KEYPHRASE)
             (digest_SHA256 testPlatform (TextEncoder_encode testPlatform SALT)) Argon2id 19456 2 1 32
           = PRECOMPUTED_DERIVED_KEY_FIRST_PASS"
    by (simp add: testPlatform_def)
  have g: "getPublicKeyAsync testPlatform = rev" by (simp add: testPlatform_def)
  note T = derivation_deterministic[OF r1 r2, of KEYPHRASE SALT, unfolded v g]
  show ?thesis
    by (intro conjI r1 r2 T[THEN conjunct1] T[THEN conjunct2, THEN conjunct1]
          T[THEN conjunct2, THEN conjunct2])
qed

text \<open>
  C9. An index \<open>x > 0\<close> that is not a whole number passes the guard of the ratchet. In
  every state the program can be in, the key derived for it is the key of the whole index
  \<open>max(1, floor(x))\<close>, \<open>encryptMetadata\<close> and \<open>decryptMetadata\<close> answer as
  they do for that whole index and never with "Ratchet count must be larger than 0", and
  afterwards the first key of the chain is cached under the key 1.
\<close>

theorem fractional_index_floors:
  assumes "reachable p st" and "0 < x" and "of_int \<lfloor>x\<rfloor> \<noteq> x"
  shows "fst (ratchetKey p K S x st) = Inr (chain_key p K S (nat (max 1 \<lfloor>x\<rfloor>)))
       \<and> fst (ratchetKey p K S x st) = fst (ratchetKey p K S (of_int (max 1 \<lfloor>x\<rfloor>)) st)
       \<and> fst (encryptMetadata p K S x m st) = fst (encryptMetadata p K S (of_int (max 1 \<lfloor>x\<rfloor>)) m st)
       \<and> fst (decryptMetadata p K S x blob st) = fst (decryptMetadata p K S (of_int (max 1 \<lfloor>x\<rfloor>)) blob st)
       \<and> fst (encryptMetadata p K S x m st) \<noteq> Inl (Error ''Ratchet count must be larger than 0'')
       \<and> fst (decryptMetadata p K S x blob st) \<noteq> Inl (Error ''Ratchet count must be larger than 0'')
       \<and> cache_get (snd (encryptMetadata p K S x m st)) 1 = Some (chain_key p K S 1)
       \<and> cache_get (snd (decryptMetadata p K S x blob st)) 1 = Some (chain_key p K S 1)"
proof -
  let ?n = "max 1 \<lfloor>x\<rfloor>"
  let ?k = "chain_key p K S (nat ?n)"
  have ok: "cache_ok p st" using assms(1) by (rule reachable_cache_ok)
  have a: "fst (ratchetKey p K S x st) = Inr ?k"
    using ratchetKey_ok(1)[OF ok assms(2), of K S] by (simp only: nat_max_1)
  have pos: "(0::rat) < of_int ?n" by simp
  have fl: "max 1 (nat \<lfloor>(of_int ?n :: rat)\<rfloor>) = nat ?n" by simp
  have b: "fst (ratchetKey p K S (of_int ?n) st) = Inr ?k"
    using ratchetKey_ok(1)[OF ok pos, of K S] by (simp only: fl)
  have c: "cache_get (snd (ratchetKey p K S x st)) 1 = Some (chain_key p K S 1)"
    by (rule ratchetKey_ok(3)[OF ok assms(2)])
  have e1: "fst (encryptMetadata p K S x m st) = fst (encryptMetadata p K S (of_int ?n) m st)"
    by (simp add: encryptMetadata_key[OF a] encryptMetadata_key[OF b])
  have d1: "fst (decryptMetadata p K S x blob st) = fst (decryptMetadata p K S (of_int ?n) blob st)"
    by (simp add: decryptMetadata_key[OF a] decryptMetadata_key[OF b])
  have e2: "fst (encryptMetadata p K S x m st) \<noteq> Inl (Error ''Ratchet count must be larger than 0'')"
    by (simp add: encryptMetadata_key[OF a] encrypt_not_ratchet_error)
  have d2: "fst (decryptMetadata p K S x blob st) \<noteq> Inl (Error ''Ratchet count must be larger than 0'')"
    by (auto simp add: decryptMetadata_key[OF a] decrypt_def Let_def
          split: sum.split option.split dest: get_contentKeyBase64_error)
  have e3: "cache_get (snd (encryptMetadata p K S x m st)) 1 = Some (chain_key p K S 1)"
    using c by (simp add: encryptMetadata_key[OF a])
  have d3: "cache_get (snd (decryptMetadata p K S x blob st)) 1 = Some (chain_key p K S 1)"
    using c by (simp add: decryptMetadata_key[OF a])
  from a b e1 d1 e2 d2 e3 d3 show ?thesis by simp
qed

theorem fractional_index_floors_witness:
  "reachable testPlatform initial \<and> (0::rat) < 5 / 2 \<and> of_int \<lfloor>5 / 2 :: rat\<rfloor> \<noteq> (5 / 2 :: rat)
   \<and> fst (ratchetKey testPlatform KEYPHRASE SALT (5 / 2) initial) = Inr PRECOMPUTED_DERIVED_KEY_NEXT_PASS
   \<and> fst (ratchetKey testPlatform KEYPHRASE SALT (5 / 2) initial) =
       fst (ratchetKey testPlatform KEYPHRASE SALT 2 initial)
   \<and> fst (encryptMetadata testPlatform KEYPHRASE SALT (5 / 2) PLAINTEXT_METADATA initial) =
       fst (encryptMetadata testPlatform KEYPHRASE SALT 2 PLAINTEXT_METADATA initial)
   \<and> fst (encryptMetadata testPlatform KEYPHRASE SALT (5 / 2) PLAINTEXT_METADATA initial) \<noteq>
       Inl (Error ''Ratchet count must be larger than 0'')
   \<and> cache_get (snd (encryptMetadata testPlatform KEYPHRASE SALT (5 / 2) PLAINTEXT_METADATA initial)) 1 =
       Some PRECOMPUTED_DERIVED_KEY_FIRST_PASS"
proof -
  have r: "reachable testPlatform initial" by (rule reachable.start)
  have pos: "(0::rat) < 5 / 2" by simp
  have f2: "\<lfloor>5 / 2 :: rat\<rfloor> = 2" by (rule floor_unique) simp_all
  have frac: "of_int \<lfloor>5 / 2 :: rat\<rfloor> \<noteq> (5 / 2 :: rat)" unfolding f2 by simp
  have fl: "max 1 \<lfloor>5 / 2 :: rat\<rfloor> = 2" unfolding f2 by simp
  have n2: "nat 2 = Suc (Suc 0)" by simp
  have o2: "(of_int 2 :: rat) = 2" by simp
  note T = fractional_index_floors[OF r pos frac, of KEYPHRASE SALT PLAINTEXT_METADATA "[]",
      unfolded fl n2 o2 test_chain_key_2 One_nat_def test_chain_key_1]
  show ?thesis
    by (intro conjI r pos frac T[THEN conjunct1] T[THEN conjunct2, THEN conjunct1]
        T[THEN conjunct2, THEN conjunct2, THEN conjunct1]
        T[THEN conjunct2, THEN conjunct2, THEN conjunct2, THEN conjunct2, THEN conjunct1]
        T[THEN conjunct2, THEN conjunct2, THEN conjunct2, THEN conjunct2, THEN conjunct2,
          THEN conjunct2, THEN conjunct1])
qed

text \<open>
  C10. When the blob decrypts under the ratcheted key and parses to a record whose
  \<open>contentKeyBase64\<close> field is present but falsy (the empty string, 0, \<open>false\<close>,
  \<open>null\<close>), \<open>decryptMetadata\<close> fails with "content key not found in metadata".
\<close>

theorem falsy_content_key_rejected:
  assumes "fst (ratchetKey p K S rc st) = Inr k"
    and "decrypt p k blob = Inr pt"
    and "JSON_parse p (TextDecoder_decode p pt) = Some (Object kvs)"
    and "map_of kvs ''contentKeyBase64'' = Some v"
    and "\<not> truthy v"
  shows "fst (decryptMetadata p K S rc blob st) = Inl (Error ''content key not found in metadata'')"
  using assms(2-5) by (simp add: decryptMetadata_key[OF assms(1)])

theorem falsy_content_key_rejected_witness:
  "fst (ratchetKey testPlatform KEYPHRASE SALT 1 initial) = Inr PRECOMPUTED_DERIVED_KEY_FIRST_PASS
   \<and> decrypt testPlatform PRECOMPUTED_DERIVED_KEY_FIRST_PASS EMPTY_KEY_BLOB =
       Inr (test_encode EMPTY_KEY_METADATA_JSON)
   \<and> JSON_parse testPlatform (TextDecoder_decode testPlatform (test_encode EMPTY_KEY_METADATA_JSON)) =
       Some (Object [(''contentKeyBase64'', String [])])
   \<and> \<not> truthy (String [])
   \<and> fst (decryptMetadata testPlatform KEYPHRASE SALT 1 EMPTY_KEY_BLOB initial) =
       Inl (Error ''content key not found in metadata'')"
proof -
  have h2: "decrypt testPlatform PRECOMPUTED_DERIVED_KEY_FIRST_PASS EMPTY_KEY_BLOB =
       Inr (test_encode EMPTY_KEY_METADATA_JSON)"
    by code_simp
  have h3: "JSON_parse testPlatform (TextDecoder_decode testPlatform (test_encode EMPTY_KEY_METADATA_JSON)) =
       Some (Object [(''contentKeyBase64'', String [])])"
    by code_simp
  have h4: "map_of [(''contentKeyBase64'', String [])] ''contentKeyBase64'' = Some (String [])"
    by simp
  have h5: "\<not> truthy (String [])" by simp
  show ?thesis
    by (intro conjI test_key_1 h2 h3 h5 falsy_content_key_rejected[OF test_key_1 h2 h3 h4 h5])
qed

end
